theory Spec2Isabelle
  imports Complex_Main
begin

section \<open>Host values\<close>

text \<open>
  A JavaScript number is a double. The code only compares numbers and tests their
  truthiness, and both are decided by the real value of a finite double, so a number is a
  real, NaN, or one of the two infinities. The two zeros behave alike in every operation
  used (\<open><\<close>, truthiness, set membership) and are both \<open>Fin 0\<close>.
\<close>

datatype jsnum = Fin real | NaN | PosInf | NegInf

text \<open>The operator \<open>a < b\<close> on numbers: false as soon as one side is NaN.\<close>

fun num_lt :: "jsnum \<Rightarrow> jsnum \<Rightarrow> bool" where
  "num_lt (Fin a) (Fin b) = (a < b)"
| "num_lt (Fin a) PosInf = True"
| "num_lt NegInf (Fin b) = True"
| "num_lt NegInf PosInf = True"
| "num_lt _ _ = False"

text \<open>\<open>!n\<close> on a number is true for zero and NaN; \<open>!s\<close> on a string for the empty string.\<close>

definition falsy_num :: "jsnum \<Rightarrow> bool" where
  "falsy_num n = (n = Fin 0 \<or> n = NaN)"

definition falsy_str :: "string \<Rightarrow> bool" where
  "falsy_str s = (s = [])"

text \<open>
  Strings are sequences of code units; the model covers code units below 256, where the
  white space and line terminators removed by \<open>String.prototype.trim\<close> are
  TAB, LF, VT, FF, CR, SPACE and NBSP.
\<close>

definition is_ws :: "char \<Rightarrow> bool" where
  "is_ws c = (of_char c \<in> {9, 10, 11, 12, 13, 32, 160 :: nat})"

definition trim :: "string \<Rightarrow> string" where
  "trim s = rev (dropWhile is_ws (rev (dropWhile is_ws s)))"

text \<open>\<open>Array.prototype.join\<close> on strings.\<close>

fun join :: "string \<Rightarrow> string list \<Rightarrow> string" where
  "join sep [] = []"
| "join sep [x] = x"
| "join sep (x # y # ys) = x @ sep @ join sep (y # ys)"

text \<open>The decimal text of an array length, as a template literal prints it.\<close>

definition digit_char :: "nat \<Rightarrow> char" where
  "digit_char d = ''0123456789'' ! d"

fun show_nat :: "nat \<Rightarrow> string" where
  "show_nat n = (if n < 10 then [digit_char n] else show_nat (n div 10) @ [digit_char (n mod 10)])"

declare show_nat.simps [simp del]

text \<open>
  The builtins whose results the code depends on but which are not part of the repository:
  \<open>Number\<close> on a string, \<open>String\<close> on a number, and whether \<open>JSON.parse\<close> and
  \<open>new RegExp\<close> return or throw. Every function below takes them as a parameter.
\<close>

record host =
  strToNum :: "string \<Rightarrow> jsnum"
  numToStr :: "jsnum \<Rightarrow> string"
  jsonParses :: "string \<Rightarrow> bool"
  regexCompiles :: "string \<Rightarrow> bool"

section \<open>The rule store\<close>

text \<open>
  The union type \<open>Rule\<close>, one constructor per variant, fields in the order of the type
  declaration. \<open>params\<close> is a \<open>Record<string, unknown>\<close> that no function inspects; it is
  the type parameter.
\<close>

datatype 'p Rule =
    CoRun "string list"
  | SlotRestriction string jsnum
  | LoadLimit string jsnum
  | PhaseWindow string "jsnum list"
  | PatternMatch string string 'p
  | PrecedenceOverride "string list" "string list" jsnum

fun rule_type :: "'p Rule \<Rightarrow> string" where
  "rule_type (CoRun _) = ''coRun''"
| "rule_type (SlotRestriction _ _) = ''slotRestriction''"
| "rule_type (LoadLimit _ _) = ''loadLimit''"
| "rule_type (PhaseWindow _ _) = ''phaseWindow''"
| "rule_type (PatternMatch _ _ _) = ''patternMatch''"
| "rule_type (PrecedenceOverride _ _ _) = ''precedenceOverride''"

record validation =
  isValid :: bool
  errors :: "string list"

text \<open>One \<open>if (c) errors.push(m)\<close> statement.\<close>

definition push_if :: "bool \<Rightarrow> string \<Rightarrow> string list" where
  "push_if c m = (if c then [m] else [])"

text \<open>
  \<open>validateRule\<close>: the \<open>switch\<close> on the tag. An array is always truthy, so
  \<open>!rule.tasks\<close> and its like are false on a value of the type and only the length test
  remains. The \<open>default\<close> branch needs a tag outside the union.
\<close>

fun rule_errors :: "host \<Rightarrow> 'p Rule \<Rightarrow> string list" where
  "rule_errors h (CoRun tasks) =
     push_if (length tasks < 2) ''Co-run rule must have at least 2 tasks''
   @ push_if (\<exists>task \<in> set tasks. falsy_str (trim task)) ''All tasks must have valid names''"
| "rule_errors h (SlotRestriction grp minCommonSlots) =
     push_if (falsy_str grp \<or> falsy_str (trim grp)) ''Slot restriction rule must have a group''
   @ push_if (falsy_num minCommonSlots \<or> num_lt minCommonSlots (Fin 1))
       ''Minimum common slots must be at least 1''"
| "rule_errors h (LoadLimit grp maxSlotsPerPhase) =
     push_if (falsy_str grp \<or> falsy_str (trim grp)) ''Load limit rule must have a group''
   @ push_if (falsy_num maxSlotsPerPhase \<or> num_lt maxSlotsPerPhase (Fin 1))
       ''Maximum slots per phase must be at least 1''"
| "rule_errors h (PhaseWindow task allowedPhases) =
     push_if (falsy_str task \<or> falsy_str (trim task)) ''Phase window rule must have a task''
   @ push_if (length allowedPhases = 0) ''Phase window rule must have at least one allowed phase''
   @ push_if (\<exists>phase \<in> set allowedPhases. num_lt phase (Fin 1))
       ''All phases must be positive numbers''"
| "rule_errors h (PatternMatch regex template params) =
     push_if (falsy_str regex \<or> falsy_str (trim regex)) ''Pattern match rule must have a regex pattern''
   @ push_if (falsy_str template \<or> falsy_str (trim template)) ''Pattern match rule must have a template''
   @ push_if (\<not> regexCompiles h regex) ''Invalid regex pattern''"
| "rule_errors h (PrecedenceOverride global specific priority) =
     push_if (length global = 0) ''Precedence override rule must have global rules''
   @ push_if (length specific = 0) ''Precedence override rule must have specific rules''
   @ push_if (falsy_num priority \<or> num_lt priority (Fin 1)) ''Priority must be at least 1''"

definition validateRule :: "host \<Rightarrow> 'p Rule \<Rightarrow> validation" where
  "validateRule h rule =
     (let errs = rule_errors h rule in \<lparr>isValid = (length errs = 0), errors = errs\<rparr>)"

text \<open>A thrown \<open>Error\<close> with its message.\<close>

datatype js_error = Error string

text \<open>
  The store operations on the stored sequence. An operation that throws does so before
  \<open>set\<close> is called, so its result is the error alone and the store keeps its sequence.
  An index is a number: \<open>i === index\<close> compares the position with it.
\<close>

definition addRule :: "host \<Rightarrow> 'p Rule \<Rightarrow> 'p Rule list \<Rightarrow> js_error + 'p Rule list" where
  "addRule h rule rules =
     (let v = validateRule h rule in
      if \<not> isValid v then Inl (Error (''Invalid rule: '' @ join '', '' (errors v)))
      else Inr (rules @ [rule]))"

definition updateRule :: "host \<Rightarrow> jsnum \<Rightarrow> 'p Rule \<Rightarrow> 'p Rule list \<Rightarrow> js_error + 'p Rule list" where
  "updateRule h index rule rules =
     (let v = validateRule h rule in
      if \<not> isValid v then Inl (Error (''Invalid rule: '' @ join '', '' (errors v)))
      else Inr (map (\<lambda>(i, r). if Fin (real i) = index then rule else r) (enumerate 0 rules)))"

definition deleteRule :: "jsnum \<Rightarrow> 'p Rule list \<Rightarrow> 'p Rule list" where
  "deleteRule index rules = map snd (filter (\<lambda>(i, r). Fin (real i) \<noteq> index) (enumerate 0 rules))"

definition clearRules :: "'p Rule list \<Rightarrow> 'p Rule list" where
  "clearRules rules = []"

definition importRules :: "host \<Rightarrow> 'p Rule list \<Rightarrow> 'p Rule list \<Rightarrow> js_error + 'p Rule list" where
  "importRules h new_rules rules =
     (let invalidRules = filter (\<lambda>rule. \<not> isValid (validateRule h rule)) new_rules in
      if length invalidRules > 0
      then Inl (Error (''Invalid rules found: '' @ show_nat (length invalidRules)
                       @ '' rules failed validation''))
      else Inr new_rules)"

text \<open>\<open>[...new Set(xs)]\<close>: the distinct elements in order of first occurrence.\<close>

fun set_spread :: "'a list \<Rightarrow> 'a list \<Rightarrow> 'a list" where
  "set_spread seen [] = []"
| "set_spread seen (x # xs) =
     (if x \<in> set seen then set_spread seen xs else x # set_spread (x # seen) xs)"

record metadata =
  generatedAt :: string
  totalRules :: nat
  ruleTypes :: "string list"

record 'p export =
  rules :: "'p Rule list"
  metadata :: metadata

text \<open>\<open>exportRules\<close> reads the clock; the timestamp text is the parameter \<open>now\<close>.\<close>

definition exportRules :: "string \<Rightarrow> 'p Rule list \<Rightarrow> 'p export" where
  "exportRules now rs =
     \<lparr>rules = rs,
      metadata = \<lparr>generatedAt = now, totalRules = length rs,
                  ruleTypes = set_spread [] (map rule_type rs)\<rparr>\<rparr>"

text \<open>
  A call on the store, and the store after it: the new sequence when the call returns,
  the old one when it throws.
\<close>

datatype 'p op =
    Add "'p Rule"
  | Update jsnum "'p Rule"
  | Delete jsnum
  | Clear
  | Import "'p Rule list"

fun call :: "host \<Rightarrow> 'p op \<Rightarrow> 'p Rule list \<Rightarrow> js_error + 'p Rule list" where
  "call h (Add r) s = addRule h r s"
| "call h (Update i r) s = updateRule h i r s"
| "call h (Delete i) s = Inr (deleteRule i s)"
| "call h Clear s = Inr (clearRules s)"
| "call h (Import rs) s = importRules h rs s"

definition step :: "host \<Rightarrow> 'p Rule list \<Rightarrow> 'p op \<Rightarrow> 'p Rule list" where
  "step h s c = (case call h c s of Inl e \<Rightarrow> s | Inr s' \<Rightarrow> s')"

definition run :: "host \<Rightarrow> 'p op list \<Rightarrow> 'p Rule list" where
  "run h cs = foldl (step h) [] cs"

text \<open>
  The construction invariants as the specification's table of variants words them, each
  with the message \<open>validateRule\<close> has for it: the messages of the violated ones.
  \<open>a \<ge> b\<close> on numbers is false as soon as one side is NaN.
\<close>

definition num_ge :: "jsnum \<Rightarrow> jsnum \<Rightarrow> bool" where
  "num_ge a b = (a \<noteq> NaN \<and> b \<noteq> NaN \<and> \<not> num_lt a b)"

definition blank :: "string \<Rightarrow> bool" where
  "blank s = (trim s = [])"

fun violated :: "host \<Rightarrow> 'p Rule \<Rightarrow> string list" where
  "violated h (CoRun tasks) =
     push_if (\<not> 2 \<le> length tasks) ''Co-run rule must have at least 2 tasks''
   @ push_if (\<not> (\<forall>t \<in> set tasks. \<not> blank t)) ''All tasks must have valid names''"
| "violated h (SlotRestriction grp minCommonSlots) =
     push_if (blank grp) ''Slot restriction rule must have a group''
   @ push_if (\<not> num_ge minCommonSlots (Fin 1)) ''Minimum common slots must be at least 1''"
| "violated h (LoadLimit grp maxSlotsPerPhase) =
     push_if (blank grp) ''Load limit rule must have a group''
   @ push_if (\<not> num_ge maxSlotsPerPhase (Fin 1)) ''Maximum slots per phase must be at least 1''"
| "violated h (PhaseWindow task allowedPhases) =
     push_if (blank task) ''Phase window rule must have a task''
   @ push_if (\<not> 1 \<le> length allowedPhases) ''Phase window rule must have at least one allowed phase''
   @ push_if (\<not> (\<forall>p \<in> set allowedPhases. num_ge p (Fin 1))) ''All phases must be positive numbers''"
| "violated h (PatternMatch regex template params) =
     push_if (blank regex) ''Pattern match rule must have a regex pattern''
   @ push_if (blank template) ''Pattern match rule must have a template''
   @ push_if (\<not> regexCompiles h regex) ''Invalid regex pattern''"
| "violated h (PrecedenceOverride global specific priority) =
     push_if (global = []) ''Precedence override rule must have global rules''
   @ push_if (specific = []) ''Precedence override rule must have specific rules''
   @ push_if (\<not> num_ge priority (Fin 1)) ''Priority must be at least 1''"

text \<open>An index inside \<open>[0, n)\<close>.\<close>

fun in_range :: "jsnum \<Rightarrow> nat \<Rightarrow> bool" where
  "in_range (Fin x) n = (0 \<le> x \<and> x < real n)"
| "in_range _ n = False"

section \<open>Row validators\<close>

text \<open>
  A row is a \<open>Record<string, any>\<close> whose values are the scalars a parsed sheet holds.
  \<open>col in row\<close> is membership in the domain and \<open>row[col]\<close> of a missing column is
  \<open>undefined\<close>. (Column names are those of a sheet; none is a member of
  \<open>Object.prototype\<close>, which \<open>in\<close> would also find.)
\<close>

datatype jsval = JUndefined | JNull | JBool bool | JNum jsnum | JStr string

type_synonym Row = "string \<Rightarrow> jsval option"

definition has_col :: "string \<Rightarrow> Row \<Rightarrow> bool" where
  "has_col col rw = (rw col \<noteq> None)"

definition get_col :: "Row \<Rightarrow> string \<Rightarrow> jsval" where
  "get_col rw col = (case rw col of None \<Rightarrow> JUndefined | Some v \<Rightarrow> v)"

fun truthy :: "jsval \<Rightarrow> bool" where
  "truthy JUndefined = False"
| "truthy JNull = False"
| "truthy (JBool b) = b"
| "truthy (JNum n) = (\<not> falsy_num n)"
| "truthy (JStr s) = (\<not> falsy_str s)"

text \<open>\<open>a || b\<close>.\<close>

definition or_else :: "jsval \<Rightarrow> jsval \<Rightarrow> jsval" where
  "or_else a b = (if truthy a then a else b)"

text \<open>\<open>String(v)\<close> and \<open>Number(v)\<close>.\<close>

fun toString :: "host \<Rightarrow> jsval \<Rightarrow> string" where
  "toString h JUndefined = ''undefined''"
| "toString h JNull = ''null''"
| "toString h (JBool b) = (if b then ''true'' else ''false'')"
| "toString h (JNum n) = numToStr h n"
| "toString h (JStr s) = s"

fun toNumber :: "host \<Rightarrow> jsval \<Rightarrow> jsnum" where
  "toNumber h JUndefined = NaN"
| "toNumber h JNull = Fin 0"
| "toNumber h (JBool b) = (if b then Fin 1 else Fin 0)"
| "toNumber h (JNum n) = n"
| "toNumber h (JStr s) = strToNum h s"

definition isNaN :: "jsnum \<Rightarrow> bool" where
  "isNaN n = (n = NaN)"

text \<open>
  \<open>s.split(/[,;]/)\<close>: the pieces between the delimiters, one more than there are
  delimiters, so the empty string gives one empty piece.
\<close>

definition is_delim :: "char \<Rightarrow> bool" where
  "is_delim c = (c = CHR '','' \<or> c = CHR '';'')"

fun split_on :: "(char \<Rightarrow> bool) \<Rightarrow> string \<Rightarrow> string list" where
  "split_on p [] = [[]]"
| "split_on p (c # cs) =
     (if p c then [] # split_on p cs
      else (case split_on p cs of [] \<Rightarrow> [[c]] | w # ws \<Rightarrow> (c # w) # ws))"

datatype severity = error | warning

record ValidationError =
  row :: nat
  column :: string
  message :: string
  type :: severity

record ValidationResult =
  errors :: "ValidationError list"
  summary :: "severity \<Rightarrow> nat option"

text \<open>
  \<open>rows.forEach((row, i) => ...)\<close> with a body that pushes onto \<open>errors\<close>:
  \<open>body i row\<close> is what the iteration at position \<open>i\<close> pushes.
\<close>

fun forEach :: "(nat \<Rightarrow> 'a \<Rightarrow> 'e list) \<Rightarrow> nat \<Rightarrow> 'a list \<Rightarrow> 'e list" where
  "forEach body i [] = []"
| "forEach body i (x # xs) = body i x @ forEach body (Suc i) xs"

definition validateRequiredColumns :: "Row list \<Rightarrow> string list \<Rightarrow> ValidationError list" where
  "validateRequiredColumns rows required =
     (case rows of [] \<Rightarrow> []
      | r0 # _ \<Rightarrow>
          (let missing = filter (\<lambda>col. \<not> has_col col r0) required in
           if length missing = 0 then []
           else map (\<lambda>col. \<lparr>row = 0, column = col,
                            message = ''Missing required column: '' @ col, type = error\<rparr>) missing))"

text \<open>
  \<open>validateDuplicateIDs\<close>: the loop carries the set \<open>seen\<close>. \<open>Set.has\<close> compares raw
  values, a string never equal to a number.
\<close>

fun dup_loop :: "host \<Rightarrow> string \<Rightarrow> jsval set \<Rightarrow> nat \<Rightarrow> Row list \<Rightarrow> ValidationError list" where
  "dup_loop h idCol seen i [] = []"
| "dup_loop h idCol seen i (rw # rest) =
     (let idv = get_col rw idCol in
      if idv \<in> seen
      then \<lparr>row = i + 1, column = idCol,
            message = ''Duplicate ID: '' @ toString h idv, type = error\<rparr>
           # dup_loop h idCol seen (Suc i) rest
      else dup_loop h idCol (insert idv seen) (Suc i) rest)"

definition validateDuplicateIDs :: "host \<Rightarrow> Row list \<Rightarrow> string \<Rightarrow> ValidationError list" where
  "validateDuplicateIDs h rows idCol = dup_loop h idCol {} 0 rows"

definition validateNumericList :: "host \<Rightarrow> Row list \<Rightarrow> string \<Rightarrow> ValidationError list" where
  "validateNumericList h rows col =
     forEach (\<lambda>i rw.
       if truthy (get_col rw col) then
         (let vals = map trim (split_on is_delim (toString h (get_col rw col))) in
          if \<exists>v \<in> set vals. \<not> falsy_str v \<and> isNaN (strToNum h v)
          then [\<lparr>row = i + 1, column = col,
                 message = ''Malformed numeric list in '' @ col, type = error\<rparr>]
          else [])
       else []) 0 rows"

definition validateRange :: "host \<Rightarrow> Row list \<Rightarrow> string \<Rightarrow> jsnum \<Rightarrow> jsnum \<Rightarrow> ValidationError list" where
  "validateRange h rows col mn mx =
     forEach (\<lambda>i rw.
       (let val = toNumber h (get_col rw col) in
        if isNaN val \<or> num_lt val mn \<or> num_lt mx val
        then [\<lparr>row = i + 1, column = col,
               message = ''Value out of range ('' @ numToStr h mn @ ''-'' @ numToStr h mx
                         @ '') in '' @ col,
               type = error\<rparr>]
        else [])) 0 rows"

text \<open>
  \<open>indexOf\<close> and \<open>lastIndexOf\<close> of a character that occurs, and \<open>substring\<close>, which
  swaps its arguments when the first is the larger.
\<close>

definition indexOf :: "string \<Rightarrow> char \<Rightarrow> nat" where
  "indexOf s c = length (takeWhile (\<lambda>x. x \<noteq> c) s)"

definition lastIndexOf :: "string \<Rightarrow> char \<Rightarrow> nat" where
  "lastIndexOf s c = length s - 1 - length (takeWhile (\<lambda>x. x \<noteq> c) (rev s))"

definition substring :: "string \<Rightarrow> nat \<Rightarrow> nat \<Rightarrow> string" where
  "substring s a b = (let lo = min a b; hi = max a b in take (hi - lo) (drop lo s))"

text \<open>The text handed to \<open>JSON.parse\<close>.\<close>

definition json_text :: "string \<Rightarrow> string" where
  "json_text jsonStr =
     (if CHR ''{'' \<in> set jsonStr \<and> CHR ''}'' \<in> set jsonStr then
        (let start = indexOf jsonStr CHR ''{''; end = lastIndexOf jsonStr CHR ''}'' + 1
         in substring jsonStr start end)
      else jsonStr)"

definition validateJSON :: "host \<Rightarrow> Row list \<Rightarrow> string \<Rightarrow> ValidationError list" where
  "validateJSON h rows col =
     (case rows of [] \<Rightarrow> []
      | r0 # _ \<Rightarrow>
          if \<not> has_col col r0 then []
          else forEach (\<lambda>i rw.
                 if truthy (get_col rw col) then
                   (if jsonParses h (json_text (toString h (get_col rw col))) then []
                    else [\<lparr>row = i + 1, column = col,
                           message = ''Malformed JSON in '' @ col, type = error\<rparr>])
                 else []) 0 rows)"

text \<open>\<open>validateReferences\<close> with its default delimiter, as \<open>validateAll\<close> calls it.\<close>

definition validateReferences :: "host \<Rightarrow> Row list \<Rightarrow> string \<Rightarrow> jsval set \<Rightarrow> ValidationError list" where
  "validateReferences h rows col validIDs =
     forEach (\<lambda>i rw.
       if truthy (get_col rw col) then
         (let ids = map trim (split_on is_delim (toString h (get_col rw col))) in
          concat (map (\<lambda>idv.
            if \<not> falsy_str idv \<and> JStr idv \<notin> validIDs
            then [\<lparr>row = i + 1, column = col,
                   message = ''Unknown reference: '' @ idv, type = error\<rparr>]
            else []) ids))
       else []) 0 rows"

definition validateGroupTags :: "host \<Rightarrow> Row list \<Rightarrow> string \<Rightarrow> ValidationError list" where
  "validateGroupTags h rows groupCol =
     forEach (\<lambda>i rw.
       (let grp = get_col rw groupCol in
        if \<not> truthy grp \<or> trim (toString h grp) = []
        then [\<lparr>row = i + 1, column = groupCol,
               message = ''Empty or invalid group tag'', type = error\<rparr>]
        else [])) 0 rows"

definition validateCircularGroups :: "Row list \<Rightarrow> string \<Rightarrow> string \<Rightarrow> ValidationError list" where
  "validateCircularGroups rows idCol groupCol = []"

text \<open>The slots of a worker row: the non-empty pieces of \<open>AvailableSlots\<close>.\<close>

definition slots_of :: "host \<Rightarrow> Row \<Rightarrow> string list" where
  "slots_of h rw =
     filter (\<lambda>s. \<not> falsy_str s)
       (split_on is_delim (toString h (or_else (get_col rw ''AvailableSlots'') (JStr []))))"

definition validateWorkerLoad :: "host \<Rightarrow> Row list \<Rightarrow> ValidationError list" where
  "validateWorkerLoad h rows =
     forEach (\<lambda>i rw.
       (let slots = slots_of h rw;
            maxLoad = toNumber h (get_col rw ''MaxLoadPerPhase'') in
        if num_lt (Fin (real (length slots))) maxLoad
        then [\<lparr>row = i + 1, column = ''AvailableSlots'',
               message = ''Worker overloaded: AvailableSlots < MaxLoadPerPhase'', type = error\<rparr>]
        else [])) 0 rows"

definition validateSkillCoverage :: "host \<Rightarrow> Row list \<Rightarrow> Row list \<Rightarrow> ValidationError list" where
  "validateSkillCoverage h task_rows worker_rows =
     (let allSkills = set (concat (map (\<lambda>w.
            map trim (split_on is_delim (toString h (or_else (get_col w ''Skills'') (JStr [])))))
            worker_rows)) in
      forEach (\<lambda>i task.
        (let reqSkills = map trim (split_on is_delim
               (toString h (or_else (get_col task ''RequiredSkills'') (JStr [])))) in
         concat (map (\<lambda>skill.
           if \<not> falsy_str skill \<and> skill \<notin> allSkills
           then [\<lparr>row = i + 1, column = ''RequiredSkills'',
                  message = ''Skill not covered by any worker: '' @ skill, type = error\<rparr>]
           else []) reqSkills))) 0 task_rows)"

text \<open>
  \<open>summarize\<close>: the \<open>reduce\<close> whose callback \<open>acc[e.type] = (acc[e.type]||0)+1\<close>
  counts the entries of each type, from the empty object.
\<close>

definition count_type :: "(severity \<Rightarrow> nat option) \<Rightarrow> ValidationError \<Rightarrow> (severity \<Rightarrow> nat option)" where
  "count_type acc e = acc(type e \<mapsto> (case acc (type e) of None \<Rightarrow> 0 | Some n \<Rightarrow> n) + 1)"

definition summarize :: "ValidationError list \<Rightarrow> (severity \<Rightarrow> nat option)" where
  "summarize errs = foldl count_type Map.empty errs"

record all_results =
  clients :: ValidationResult
  workers :: ValidationResult
  tasks :: ValidationResult

text \<open>
  The three pipelines. Each array literal spreads the results of its validators in the
  order written: the list of the contributions, concatenated.
\<close>

definition client_checks :: "host \<Rightarrow> Row list \<Rightarrow> Row list \<Rightarrow> ValidationError list list" where
  "client_checks h cs ts =
     [validateRequiredColumns cs [''ClientID'', ''ClientName'', ''PriorityLevel'',
        ''RequestedTaskIDs'', ''GroupTag'', ''AttributesJSON''],
      validateDuplicateIDs h cs ''ClientID'',
      validateRange h cs ''PriorityLevel'' (Fin 1) (Fin 5),
      validateJSON h cs ''AttributesJSON'',
      validateGroupTags h cs ''GroupTag'',
      validateReferences h cs ''RequestedTaskIDs'' (set (map (\<lambda>t. get_col t ''TaskID'') ts))]"

definition worker_checks :: "host \<Rightarrow> Row list \<Rightarrow> ValidationError list list" where
  "worker_checks h ws =
     [validateRequiredColumns ws [''WorkerID'', ''WorkerName'', ''Skills'', ''AvailableSlots'',
        ''MaxLoadPerPhase'', ''WorkerGroup'', ''QualificationLevel''],
      validateDuplicateIDs h ws ''WorkerID'',
      validateNumericList h ws ''AvailableSlots'',
      validateWorkerLoad h ws,
      validateGroupTags h ws ''WorkerGroup'']"

definition task_checks :: "host \<Rightarrow> Row list \<Rightarrow> Row list \<Rightarrow> ValidationError list list" where
  "task_checks h ts ws =
     [validateRequiredColumns ts [''TaskID'', ''TaskName'', ''Category'', ''Duration'',
        ''RequiredSkills'', ''PreferredPhases'', ''MaxConcurrent''],
      validateDuplicateIDs h ts ''TaskID'',
      validateRange h ts ''Duration'' (Fin 1) PosInf,
      validateSkillCoverage h ts ws]"

definition clientErrors :: "host \<Rightarrow> Row list \<Rightarrow> Row list \<Rightarrow> Row list \<Rightarrow> ValidationError list" where
  "clientErrors h cs ws ts = concat (client_checks h cs ts)"

definition workerErrors :: "host \<Rightarrow> Row list \<Rightarrow> Row list \<Rightarrow> Row list \<Rightarrow> ValidationError list" where
  "workerErrors h cs ws ts = concat (worker_checks h ws)"

definition taskErrors :: "host \<Rightarrow> Row list \<Rightarrow> Row list \<Rightarrow> Row list \<Rightarrow> ValidationError list" where
  "taskErrors h cs ws ts = concat (task_checks h ts ws)"

text \<open>
  \<open>validateAll\<close>. Each of the three arrays may be absent (\<open>None\<close>): \<open>!clients?.length\<close>
  is true for an absent and for an empty array.
\<close>

definition no_length :: "Row list option \<Rightarrow> bool" where
  "no_length d = (case d of None \<Rightarrow> True | Some rs \<Rightarrow> length rs = 0)"

definition rows_of :: "Row list option \<Rightarrow> Row list" where
  "rows_of d = (case d of None \<Rightarrow> [] | Some rs \<Rightarrow> rs)"

definition empty_results :: all_results where
  "empty_results =
     \<lparr>clients = \<lparr>errors = [], summary = Map.empty\<rparr>,
      workers = \<lparr>errors = [], summary = Map.empty\<rparr>,
      tasks = \<lparr>errors = [], summary = Map.empty\<rparr>\<rparr>"

definition validateAll :: "host \<Rightarrow> Row list option \<Rightarrow> Row list option \<Rightarrow> Row list option \<Rightarrow> all_results" where
  "validateAll h cl wk tk =
     (if no_length cl \<or> no_length wk \<or> no_length tk then empty_results
      else (let cs = rows_of cl; ws = rows_of wk; ts = rows_of tk in
        \<lparr>clients = \<lparr>errors = clientErrors h cs ws ts, summary = summarize (clientErrors h cs ws ts)\<rparr>,
         workers = \<lparr>errors = workerErrors h cs ws ts, summary = summarize (workerErrors h cs ws ts)\<rparr>,
         tasks = \<lparr>errors = taskErrors h cs ws ts, summary = summarize (taskErrors h cs ws ts)\<rparr>\<rparr>))"

text \<open>
  A load violation as the specification words it: a \<open>MaxLoadPerPhase\<close> that is no
  number never is one; otherwise the count of slots is strictly less than the number.
\<close>

definition load_violation :: "host \<Rightarrow> Row \<Rightarrow> bool" where
  "load_violation h rw =
     (case toNumber h (get_col rw ''MaxLoadPerPhase'') of
        NaN \<Rightarrow> False
      | Fin x \<Rightarrow> real (length (slots_of h rw)) < x
      | PosInf \<Rightarrow> True
      | NegInf \<Rightarrow> False)"

section \<open>A host for the examples\<close>

text \<open>
  One host, to evaluate the definitions at concrete inputs. On the inputs listed it gives
  what JavaScript gives (\<open>Number("5")\<close> is 5, \<open>String(Infinity)\<close> is \<open>"Infinity"\<close>,
  \<open>JSON.parse("{}")\<close> returns, \<open>new RegExp("(unclosed")\<close> throws); its values elsewhere
  are placeholders, and no theorem other than an example depends on it.
\<close>

definition sample_strToNum :: "string \<Rightarrow> jsnum" where
  "sample_strToNum s =
     (if s = [] then Fin 0 else if s = ''1'' then Fin 1 else if s = ''2'' then Fin 2
      else if s = ''3'' then Fin 3 else if s = ''5'' then Fin 5 else if s = ''6'' then Fin 6
      else NaN)"

fun sample_numToStr :: "jsnum \<Rightarrow> string" where
  "sample_numToStr NaN = ''NaN''"
| "sample_numToStr PosInf = ''Infinity''"
| "sample_numToStr NegInf = ''-Infinity''"
| "sample_numToStr (Fin x) =
     (if x = 0 then ''0'' else if x = 1 then ''1'' else if x = 2 then ''2''
      else if x = 5 then ''5'' else ''?'')"

definition sample_host :: host where
  "sample_host =
     \<lparr>strToNum = sample_strToNum,
      numToStr = sample_numToStr,
      jsonParses = (\<lambda>s. s = ''{}''),
      regexCompiles = (\<lambda>s. s = ''^T[0-9]+$'')\<rparr>"

text \<open>Sample rows, one of each dataset, and two client rows for the JSON column.\<close>

definition sample_client :: Row where
  "sample_client = map_of
     [(''ClientID'', JStr ''C1''), (''ClientName'', JStr ''Acme''), (''PriorityLevel'', JStr ''6''),
      (''RequestedTaskIDs'', JStr ''T1,T9''), (''GroupTag'', JStr ''G''),
      (''AttributesJSON'', JStr ''{}'')]"

definition sample_worker :: Row where
  "sample_worker = map_of
     [(''WorkerID'', JStr ''W1''), (''WorkerName'', JStr ''Ann''), (''Skills'', JStr ''a,b''),
      (''AvailableSlots'', JStr ''1,2''), (''MaxLoadPerPhase'', JStr ''3''),
      (''WorkerGroup'', JStr ''G''), (''QualificationLevel'', JStr ''1'')]"

definition sample_task :: Row where
  "sample_task = map_of
     [(''TaskID'', JStr ''T1''), (''TaskName'', JStr ''t''), (''Category'', JStr ''c''),
      (''Duration'', JStr ''2''), (''RequiredSkills'', JStr ''a,z''),
      (''PreferredPhases'', JStr ''1''), (''MaxConcurrent'', JStr ''1'')]"

definition no_json_row :: Row where
  "no_json_row = map_of [(''ClientID'', JStr ''C1'')]"

definition bad_json_row :: Row where
  "bad_json_row = map_of [(''ClientID'', JStr ''C2''), (''AttributesJSON'', JStr ''{bad'')]"

definition good_json_row :: Row where
  "good_json_row = map_of [(''ClientID'', JStr ''C3''), (''AttributesJSON'', JStr ''x{}y'')]"

definition nan_load_worker :: Row where
  "nan_load_worker = map_of
     [(''WorkerID'', JStr ''W2''), (''AvailableSlots'', JStr ''1,2''),
      (''MaxLoadPerPhase'', JStr ''abc'')]"

section \<open>Facts about the rule store\<close>

lemma valid_conv: "isValid (validateRule h r) = (rule_errors h r = [])"
  by (simp add: validateRule_def Let_def)

lemma errors_conv: "validation.errors (validateRule h r) = rule_errors h r"
  by (simp add: validateRule_def Let_def)

lemma set_update_map:
  "set (map (\<lambda>(i, r). if P i then rule else r) (enumerate n rs)) \<subseteq> insert rule (set rs)"
  by (induction rs arbitrary: n) auto

lemma set_delete_filter:
  "set (map snd (filter (\<lambda>(i, r). P i) (enumerate n rs))) \<subseteq> set rs"
  by (induction rs arbitrary: n) auto

lemma update_unmatched:
  "\<forall>(i, r) \<in> set (enumerate n rs). \<not> P i \<Longrightarrow>
   map (\<lambda>(i, r). if P i then rule else r) (enumerate n rs) = rs"
  by (induction rs arbitrary: n) auto

text \<open>Every call that returns keeps the stored rules valid.\<close>

lemma call_preserves:
  assumes "\<forall>r \<in> set s. isValid (validateRule h r)" and "call h c s = Inr s'"
  shows "\<forall>r \<in> set s'. isValid (validateRule h r)"
proof (cases c)
  case (Add r)
  with assms show ?thesis by (auto simp: addRule_def Let_def split: if_splits)
next
  case (Update i r)
  with assms have v: "isValid (validateRule h r)"
    and s': "s' = map (\<lambda>(k, x). if Fin (real k) = i then r else x) (enumerate 0 s)"
    by (auto simp: updateRule_def Let_def split: if_splits)
  have "set s' \<subseteq> insert r (set s)" unfolding s' by (rule set_update_map)
  with assms(1) v show ?thesis by auto
next
  case (Delete i)
  with assms have s': "s' = map snd (filter (\<lambda>(k, x). Fin (real k) \<noteq> i) (enumerate 0 s))"
    by (auto simp: deleteRule_def)
  have "set s' \<subseteq> set s" unfolding s' by (rule set_delete_filter)
  with assms(1) show ?thesis by auto
next
  case Clear
  with assms show ?thesis by (auto simp: clearRules_def)
next
  case (Import rs)
  with assms show ?thesis
    by (auto simp: importRules_def Let_def filter_empty_conv split: if_splits)
qed

lemma step_preserves:
  "\<forall>r \<in> set s. isValid (validateRule h r) \<Longrightarrow>
   \<forall>r \<in> set (step h s c). isValid (validateRule h r)"
  using call_preserves[of s h c] by (cases "call h c s") (auto simp: step_def)

lemma foldl_step_preserves:
  "\<forall>r \<in> set s. isValid (validateRule h r) \<Longrightarrow>
   \<forall>r \<in> set (foldl (step h) s cs). isValid (validateRule h r)"
proof (induction cs arbitrary: s)
  case Nil
  then show ?case by simp
next
  case (Cons c cs)
  from Cons.prems have "\<forall>r \<in> set (step h s c). isValid (validateRule h r)"
    by (rule step_preserves)
  then show ?case using Cons.IH by simp
qed

text \<open>
  Where \<open>validateRule\<close> and the specification's table agree: on every rule but a
  phase window with a NaN among its phases.
\<close>

lemma blank_conv: "(falsy_str s \<or> falsy_str (trim s)) = blank s"
  by (auto simp: falsy_str_def blank_def trim_def)

lemma ge_one_conv: "(falsy_num n \<or> num_lt n (Fin 1)) = (\<not> num_ge n (Fin 1))"
  by (cases n) (auto simp: falsy_num_def num_ge_def)

lemma phase_conv: "p \<noteq> NaN \<Longrightarrow> num_lt p (Fin 1) = (\<not> num_ge p (Fin 1))"
  by (cases p) (auto simp: num_ge_def)

lemma phases_conv:
  "NaN \<notin> set ps \<Longrightarrow>
   (\<exists>p \<in> set ps. num_lt p (Fin 1)) = (\<not> (\<forall>p \<in> set ps. num_ge p (Fin 1)))"
proof -
  assume "NaN \<notin> set ps"
  then have "\<forall>p \<in> set ps. p \<noteq> NaN" by (induction ps) auto
  then have "\<forall>p \<in> set ps. num_lt p (Fin 1) = (\<not> num_ge p (Fin 1))"
    by (simp add: phase_conv)
  then show ?thesis by simp
qed

lemma agree_CoRun: "rule_errors h (CoRun ts) = violated h (CoRun ts)"
  by (simp add: blank_def falsy_str_def not_le)

lemma agree_SlotRestriction:
  "rule_errors h (SlotRestriction g n) = violated h (SlotRestriction g n)"
  by (simp add: blank_conv ge_one_conv)

lemma agree_LoadLimit: "rule_errors h (LoadLimit g n) = violated h (LoadLimit g n)"
  by (simp add: blank_conv ge_one_conv)

lemma agree_PhaseWindow:
  "NaN \<notin> set ps \<Longrightarrow> rule_errors h (PhaseWindow t ps) = violated h (PhaseWindow t ps)"
  by (simp add: blank_conv phases_conv not_le Suc_le_eq)

lemma agree_PatternMatch:
  "rule_errors h (PatternMatch re t ps) = violated h (PatternMatch re t ps)"
  by (simp add: blank_conv)

lemma agree_PrecedenceOverride:
  "rule_errors h (PrecedenceOverride g s n) = violated h (PrecedenceOverride g s n)"
  by (simp add: ge_one_conv)

lemma rule_errors_violated:
  assumes "\<And>t ps. r = PhaseWindow t ps \<Longrightarrow> NaN \<notin> set ps"
  shows "rule_errors h r = violated h r"
proof (cases r)
  case (PhaseWindow t ps)
  then have "NaN \<notin> set ps" by (rule assms)
  then show ?thesis unfolding PhaseWindow by (rule agree_PhaseWindow)
qed (simp_all only: agree_CoRun agree_SlotRestriction agree_LoadLimit agree_PatternMatch
       agree_PrecedenceOverride)

text \<open>
  \<open>addRule\<close> throws exactly when \<open>validateRule\<close> reports an error, its message joins
  all the reported errors, and otherwise the rule is appended. With the lemma above, the
  reported errors are the violated invariants of the table unless a phase is NaN.
\<close>

lemma addRule_cases:
  "addRule h r S =
     (if rule_errors h r = [] then Inr (S @ [r])
      else Inl (Error (''Invalid rule: '' @ join '', '' (rule_errors h r))))"
  by (simp add: addRule_def Let_def valid_conv errors_conv)

lemma addRule_table:
  assumes "\<And>t ps. r = PhaseWindow t ps \<Longrightarrow> NaN \<notin> set ps"
  shows "addRule h r S =
     (if violated h r = [] then Inr (S @ [r])
      else Inl (Error (''Invalid rule: '' @ join '', '' (violated h r))))"
proof -
  have "rule_errors h r = violated h r" using assms by (rule rule_errors_violated)
  then show ?thesis by (simp only: addRule_cases)
qed

section \<open>Facts about the validators\<close>

lemma forEach_enumerate:
  "forEach body k xs = concat (map (\<lambda>(i, x). body i x) (enumerate k xs))"
  by (induction xs arbitrary: k) auto

lemma forEach_nth:
  "forEach body 0 xs = concat (map (\<lambda>i. body i (xs ! i)) [0..<length xs])"
proof -
  have "enumerate 0 xs = map (\<lambda>i. (i, xs ! i)) [0..<length xs]"
    by (simp add: enumerate_eq_zip zip_eq_conv comp_def map_nth)
  then show ?thesis by (simp add: forEach_enumerate comp_def)
qed

lemma concat_map_if:
  "concat (map (\<lambda>i. if P i then [f i] else []) ks) = map f (filter P ks)"
  by (induction ks) auto

text \<open>A loop whose body pushes at most one entry, on a condition of the row alone.\<close>

lemma forEach_single:
  "forEach (\<lambda>i x. if P x then [f i] else []) 0 xs =
   map f (filter (\<lambda>i. P (xs ! i)) [0..<length xs])"
  by (simp add: forEach_nth concat_map_if)

lemma sorted_const_rows: "\<forall>e \<in> set ys. row e = c \<Longrightarrow> sorted (map row ys)"
  by (induction ys) auto

text \<open>A loop whose body tags its entries with the row number emits them in row order.\<close>

lemma forEach_rows:
  assumes "\<And>i x e. e \<in> set (body i x) \<Longrightarrow> row e = i + 1"
  shows "sorted (map row (forEach body k xs)) \<and> (\<forall>e \<in> set (forEach body k xs). k < row e)"
proof (induction xs arbitrary: k)
  case Nil
  then show ?case by simp
next
  case (Cons x xs)
  have a: "\<forall>e \<in> set (body k x). row e = k + 1" using assms by blast
  then have s: "sorted (map row (body k x))" by (rule sorted_const_rows)
  have ih1: "sorted (map row (forEach body (Suc k) xs))"
    and ih2: "\<forall>e \<in> set (forEach body (Suc k) xs). Suc k < row e"
    using Cons.IH[of "Suc k"] by simp_all
  have "sorted (map row (body k x) @ map row (forEach body (Suc k) xs))"
    unfolding sorted_append using s ih1 a ih2 by fastforce
  moreover have "\<forall>e \<in> set (body k x @ forEach body (Suc k) xs). k < row e"
    using a ih2 by fastforce
  ultimately show ?case by simp
qed

lemma dup_loop_rows:
  "sorted (map row (dup_loop h c seen k xs)) \<and> (\<forall>e \<in> set (dup_loop h c seen k xs). k < row e)"
proof (induction xs arbitrary: k seen)
  case Nil
  then show ?case by simp
next
  case (Cons x xs)
  have ih: "sorted (map row (dup_loop h c s' (Suc k) xs))
            \<and> (\<forall>e \<in> set (dup_loop h c s' (Suc k) xs). Suc k < row e)" for s'
    using Cons.IH[of s' "Suc k"] by simp
  show ?case
  proof (cases "get_col x c \<in> seen")
    case True
    with ih[of seen] show ?thesis by (fastforce simp: Let_def)
  next
    case False
    with ih[of "insert (get_col x c) seen"] show ?thesis by (fastforce simp: Let_def)
  qed
qed

lemma required_rows: "sorted (map row (validateRequiredColumns rows req))"
proof -
  have "\<forall>e \<in> set (validateRequiredColumns rows req). row e = 0"
    by (cases rows) (auto simp: validateRequiredColumns_def Let_def)
  then show ?thesis by (rule sorted_const_rows)
qed

lemma duplicate_rows: "sorted (map row (validateDuplicateIDs h rows c))"
  by (simp add: validateDuplicateIDs_def dup_loop_rows)

lemma numeric_rows: "sorted (map row (validateNumericList h rows c))"
  unfolding validateNumericList_def
  by (rule forEach_rows[THEN conjunct1]) (auto simp: Let_def split: if_splits)

lemma range_rows: "sorted (map row (validateRange h rows c a b))"
  unfolding validateRange_def
  by (rule forEach_rows[THEN conjunct1]) (auto simp: Let_def split: if_splits)

lemma json_rows: "sorted (map row (validateJSON h rows c))"
proof (cases rows)
  case Nil
  then show ?thesis by (simp add: validateJSON_def)
next
  case (Cons r0 rest)
  show ?thesis
  proof (cases "has_col c r0")
    case False
    with Cons show ?thesis by (simp add: validateJSON_def)
  next
    case True
    have "sorted (map row (forEach (\<lambda>i rw.
                 if truthy (get_col rw c) then
                   (if jsonParses h (json_text (toString h (get_col rw c))) then []
                    else [\<lparr>row = i + 1, column = c,
                           message = ''Malformed JSON in '' @ c, type = error\<rparr>])
                 else []) 0 rows))"
      by (rule forEach_rows[THEN conjunct1]) (auto split: if_splits)
    with True Cons show ?thesis by (simp add: validateJSON_def)
  qed
qed

lemma references_rows: "sorted (map row (validateReferences h rows c ids))"
  unfolding validateReferences_def
  by (rule forEach_rows[THEN conjunct1]) (auto simp: Let_def split: if_splits)

lemma group_rows: "sorted (map row (validateGroupTags h rows c))"
  unfolding validateGroupTags_def
  by (rule forEach_rows[THEN conjunct1]) (auto simp: Let_def split: if_splits)

lemma load_rows: "sorted (map row (validateWorkerLoad h rows))"
  unfolding validateWorkerLoad_def
  by (rule forEach_rows[THEN conjunct1]) (auto simp: Let_def split: if_splits)

lemma skill_rows: "sorted (map row (validateSkillCoverage h ts ws))"
  unfolding validateSkillCoverage_def Let_def
  by (rule forEach_rows[THEN conjunct1]) (auto split: if_splits)

text \<open>Every validator tags its entries \<open>error\<close>.\<close>

lemma forEach_types:
  assumes "\<And>i x e. e \<in> set (body i x) \<Longrightarrow> type e = error"
  shows "\<forall>e \<in> set (forEach body k xs). type e = error"
  using assms by (induction xs arbitrary: k) auto

lemma dup_loop_types: "\<forall>e \<in> set (dup_loop h c seen k xs). type e = error"
  by (induction xs arbitrary: k seen) (auto simp: Let_def)

lemma required_types: "\<forall>e \<in> set (validateRequiredColumns rows req). type e = error"
  by (cases rows) (auto simp: validateRequiredColumns_def Let_def)

lemma duplicate_types: "\<forall>e \<in> set (validateDuplicateIDs h rows c). type e = error"
  by (simp add: validateDuplicateIDs_def dup_loop_types)

lemma numeric_types: "\<forall>e \<in> set (validateNumericList h rows c). type e = error"
  unfolding validateNumericList_def by (rule forEach_types) (auto simp: Let_def split: if_splits)

lemma range_types: "\<forall>e \<in> set (validateRange h rows c a b). type e = error"
  unfolding validateRange_def by (rule forEach_types) (auto simp: Let_def split: if_splits)

lemma json_types: "\<forall>e \<in> set (validateJSON h rows c). type e = error"
proof (cases rows)
  case Nil
  then show ?thesis by (simp add: validateJSON_def)
next
  case (Cons r0 rest)
  show ?thesis
  proof (cases "has_col c r0")
    case False
    with Cons show ?thesis by (simp add: validateJSON_def)
  next
    case True
    have "\<forall>e \<in> set (forEach (\<lambda>i rw.
                 if truthy (get_col rw c) then
                   (if jsonParses h (json_text (toString h (get_col rw c))) then []
                    else [\<lparr>row = i + 1, column = c,
                           message = ''Malformed JSON in '' @ c, type = error\<rparr>])
                 else []) 0 rows). type e = error"
      by (rule forEach_types) (auto split: if_splits)
    with True Cons show ?thesis by (simp add: validateJSON_def)
  qed
qed

lemma references_types: "\<forall>e \<in> set (validateReferences h rows c ids). type e = error"
  unfolding validateReferences_def by (rule forEach_types) (auto simp: Let_def split: if_splits)

lemma group_types: "\<forall>e \<in> set (validateGroupTags h rows c). type e = error"
  unfolding validateGroupTags_def by (rule forEach_types) (auto simp: Let_def split: if_splits)

lemma load_types: "\<forall>e \<in> set (validateWorkerLoad h rows). type e = error"
  unfolding validateWorkerLoad_def by (rule forEach_types) (auto simp: Let_def split: if_splits)

lemma skill_types: "\<forall>e \<in> set (validateSkillCoverage h ts ws). type e = error"
  unfolding validateSkillCoverage_def Let_def by (rule forEach_types) (auto split: if_splits)

text \<open>The summary of a list of \<open>error\<close> entries is their number, and empty for none.\<close>

lemma summarize_foldl:
  "\<forall>e \<in> set errs. type e = error \<Longrightarrow>
   foldl count_type acc errs
   = (if errs = [] then acc
      else acc(error \<mapsto> (case acc error of None \<Rightarrow> 0 | Some n \<Rightarrow> n) + length errs))"
proof (induction errs arbitrary: acc)
  case Nil
  then show ?case by simp
next
  case (Cons e errs)
  then have e: "type e = error" by simp
  define c where "c = (case acc error of None \<Rightarrow> 0 | Some n \<Rightarrow> n)"
  have step: "count_type acc e = acc(error \<mapsto> c + 1)"
    by (simp add: count_type_def e c_def)
  have "foldl count_type acc (e # errs) = foldl count_type (acc(error \<mapsto> c + 1)) errs"
    by (simp add: step)
  also have "\<dots> = (if errs = [] then acc(error \<mapsto> c + 1)
                     else (acc(error \<mapsto> c + 1))(error \<mapsto>
                       (case (acc(error \<mapsto> c + 1)) error of None \<Rightarrow> 0 | Some n \<Rightarrow> n)
                       + length errs))"
    using Cons.prems by (intro Cons.IH) simp
  also have "\<dots> = acc(error \<mapsto> c + length (e # errs))" by simp
  finally show ?case by (simp add: c_def)
qed

lemma summarize_count:
  "\<forall>e \<in> set errs. type e = error \<Longrightarrow>
   summarize errs = (if errs = [] then Map.empty else [error \<mapsto> length errs])"
  unfolding summarize_def by (subst summarize_foldl) auto

text \<open>
  \<open>indexOf\<close> is the first and \<open>lastIndexOf\<close> the last position of a character that
  occurs; \<open>json_text\<close> keeps the span between the first \<open>{\<close> and the last \<open>}\<close>.
\<close>

lemma indexOf_first:
  "c \<in> set s \<Longrightarrow>
   indexOf s c < length s \<and> s ! indexOf s c = c \<and> (\<forall>j < indexOf s c. s ! j \<noteq> c)"
proof (induction s)
  case Nil
  then show ?case by simp
next
  case (Cons x xs)
  show ?case
  proof (cases "x = c")
    case True
    then show ?thesis by (simp add: indexOf_def)
  next
    case False
    with Cons.prems have "c \<in> set xs" by simp
    from Cons.IH[OF this] False show ?thesis
      by (auto simp: indexOf_def nth_Cons split: nat.splits)
  qed
qed

lemma lastIndexOf_last:
  assumes "c \<in> set s"
  shows "lastIndexOf s c < length s \<and> s ! lastIndexOf s c = c
         \<and> (\<forall>j. lastIndexOf s c < j \<and> j < length s \<longrightarrow> s ! j \<noteq> c)"
proof -
  let ?k = "indexOf (rev s) c"
  from assms have "c \<in> set (rev s)" by simp
  from indexOf_first[OF this]
  have k: "?k < length s" and at: "rev s ! ?k = c" and before: "\<forall>j < ?k. rev s ! j \<noteq> c"
    by simp_all
  have l: "lastIndexOf s c = length s - 1 - ?k" by (simp add: lastIndexOf_def indexOf_def)
  have 1: "lastIndexOf s c < length s" using k l by simp
  have 2: "s ! lastIndexOf s c = c" using at k l by (simp add: rev_nth)
  have 3: "s ! j \<noteq> c" if "lastIndexOf s c < j" "j < length s" for j
  proof -
    have "length s - Suc j < ?k" using that k l by simp
    with before have "rev s ! (length s - Suc j) \<noteq> c" by blast
    moreover have "rev s ! (length s - Suc j) = s ! j" using that by (simp add: rev_nth)
    ultimately show ?thesis by simp
  qed
  from 1 2 3 show ?thesis by blast
qed

lemma json_text_span:
  assumes "CHR ''{'' \<in> set s" and "CHR ''}'' \<in> set s"
    and "indexOf s CHR ''{'' \<le> lastIndexOf s CHR ''}''"
  shows "json_text s =
           take (lastIndexOf s CHR ''}'' + 1 - indexOf s CHR ''{'') (drop (indexOf s CHR ''{'') s)"
  using assms by (simp add: json_text_def substring_def Let_def min_def max_def)

lemma json_text_no_braces:
  "CHR ''{'' \<notin> set s \<or> CHR ''}'' \<notin> set s \<Longrightarrow> json_text s = s"
  by (auto simp: json_text_def)

lemma json_text_examples:
  "json_text ''x{}y'' = ''{}''"
  "json_text ''{bad'' = ''{bad''"
  "json_text ''}x{'' = ''x''"
  by (simp_all add: json_text_def indexOf_def lastIndexOf_def substring_def)

section \<open>The claims\<close>

lemmas store_eval = validateRule_def Let_def push_if_def falsy_str_def falsy_num_def trim_def
  is_ws_def sample_host_def addRule_def updateRule_def deleteRule_def clearRules_def
  importRules_def step_def run_def exportRules_def

text \<open>
  C1. Starting from the empty sequence, after any series of \<open>addRule\<close>, \<open>updateRule\<close>,
  \<open>deleteRule\<close>, \<open>clearRules\<close> and \<open>importRules\<close> calls, whether they return or throw,
  every stored rule is one that \<open>validateRule\<close> accepts.
\<close>

theorem store_rules_valid: "\<forall>r \<in> set (run h cs). isValid (validateRule h r)"
  unfolding run_def by (rule foldl_step_preserves) simp

theorem store_rules_valid_witness:
  "run sample_host
     [Add (CoRun [''T1'', ''T2'']), Add (CoRun [''T1'']),
      Update (Fin 0) (LoadLimit ''G'' (Fin 2)),
      Import [PhaseWindow ''T1'' [Fin 1], CoRun ['' '']],
      Delete (Fin 5), Add (CoRun [''A'', ''B'']), Delete (Fin 1),
      Add (PatternMatch ''^T[0-9]+$'' ''t'' ())]
   = [LoadLimit ''G'' (Fin 2), PatternMatch ''^T[0-9]+$'' ''t'' ()]
   \<and> isValid (validateRule sample_host (LoadLimit ''G'' (Fin 2) :: unit Rule))
   \<and> isValid (validateRule sample_host (PatternMatch ''^T[0-9]+$'' ''t'' ()))"
proof -
  have run_eq: "run sample_host
     [Add (CoRun [''T1'', ''T2'']), Add (CoRun [''T1'']),
      Update (Fin 0) (LoadLimit ''G'' (Fin 2)),
      Import [PhaseWindow ''T1'' [Fin 1], CoRun ['' '']],
      Delete (Fin 5), Add (CoRun [''A'', ''B'']), Delete (Fin 1),
      Add (PatternMatch ''^T[0-9]+$'' ''t'' ())]
   = [LoadLimit ''G'' (Fin 2), PatternMatch ''^T[0-9]+$'' ''t'' ()]"
    by (simp add: store_eval)
  show ?thesis
    using store_rules_valid[of sample_host
     "[Add (CoRun [''T1'', ''T2'']), Add (CoRun [''T1'']),
      Update (Fin 0) (LoadLimit ''G'' (Fin 2)),
      Import [PhaseWindow ''T1'' [Fin 1], CoRun ['' '']],
      Delete (Fin 5), Add (CoRun [''A'', ''B'']), Delete (Fin 1),
      Add (PatternMatch ''^T[0-9]+$'' ''t'' ())]"]
    unfolding run_eq by simp
qed

text \<open>
  C2. \<open>importRules\<close> is all or nothing. If some incoming rule fails \<open>validateRule\<close>, the
  call throws an error whose message gives the number of failing rules, and the stored
  sequence stays what it was; if every incoming rule passes, the call returns.
\<close>

theorem import_atomic:
  "((\<exists>r \<in> set rs. \<not> isValid (validateRule h r)) \<longrightarrow>
      importRules h rs S = Inl (Error (''Invalid rules found: ''
         @ show_nat (length (filter (\<lambda>r. \<not> isValid (validateRule h r)) rs))
         @ '' rules failed validation''))
      \<and> step h S (Import rs) = S)
   \<and> ((\<forall>r \<in> set rs. isValid (validateRule h r)) \<longrightarrow> (\<exists>S'. importRules h rs S = Inr S'))"
  by (auto simp: importRules_def Let_def step_def filter_empty_conv)

theorem import_atomic_witness:
  "importRules sample_host [CoRun [''T1'', ''T2''], CoRun [''T1'']] [LoadLimit ''G'' (Fin 2) :: unit Rule]
     = Inl (Error ''Invalid rules found: 1 rules failed validation'')
   \<and> step sample_host [LoadLimit ''G'' (Fin 2) :: unit Rule] (Import [CoRun [''T1'', ''T2''], CoRun [''T1'']])
     = [LoadLimit ''G'' (Fin 2)]
   \<and> (\<exists>S'. importRules sample_host [CoRun [''T1'', ''T2'']] [LoadLimit ''G'' (Fin 2) :: unit Rule] = Inr S')"
proof -
  have bad: "\<exists>r \<in> set [CoRun [''T1'', ''T2''], CoRun [''T1''] :: unit Rule].
               \<not> isValid (validateRule sample_host r)"
    by (simp add: store_eval)
  have good: "\<forall>r \<in> set [CoRun [''T1'', ''T2''] :: unit Rule]. isValid (validateRule sample_host r)"
    by (simp add: store_eval)
  have n: "show_nat (length (filter (\<lambda>r. \<not> isValid (validateRule sample_host r))
              [CoRun [''T1'', ''T2''], CoRun [''T1''] :: unit Rule])) = ''1''"
    by (simp add: store_eval show_nat.simps digit_char_def)
  from import_atomic[of "[CoRun [''T1'', ''T2''], CoRun [''T1'']]" sample_host
         "[LoadLimit ''G'' (Fin 2) :: unit Rule]"] bad
  have a: "importRules sample_host [CoRun [''T1'', ''T2''], CoRun [''T1'']] [LoadLimit ''G'' (Fin 2) :: unit Rule]
     = Inl (Error ''Invalid rules found: 1 rules failed validation'')
   \<and> step sample_host [LoadLimit ''G'' (Fin 2) :: unit Rule] (Import [CoRun [''T1'', ''T2''], CoRun [''T1'']])
     = [LoadLimit ''G'' (Fin 2)]"
    unfolding n by simp
  from import_atomic[of "[CoRun [''T1'', ''T2'']]" sample_host "[LoadLimit ''G'' (Fin 2) :: unit Rule]"] good
  have b: "\<exists>S'. importRules sample_host [CoRun [''T1'', ''T2'']] [LoadLimit ''G'' (Fin 2) :: unit Rule] = Inr S'"
    by blast
  from a b show ?thesis by blast
qed

text \<open>
  C9. An import of rules that all pass \<open>validateRule\<close> stores exactly the incoming list:
  the rules stored before are dropped and the result does not depend on them.
\<close>

theorem import_replaces:
  "\<forall>r \<in> set rs. isValid (validateRule h r) \<Longrightarrow>
     importRules h rs S = Inr rs \<and> step h S (Import rs) = rs
     \<and> importRules h rs S = importRules h rs S'"
  by (auto simp: importRules_def Let_def step_def filter_empty_conv)

theorem import_replaces_witness:
  "importRules sample_host [PhaseWindow ''T1'' [Fin 1, Fin 2]] [CoRun [''A'', ''B''], LoadLimit ''G'' (Fin 2) :: unit Rule]
     = Inr [PhaseWindow ''T1'' [Fin 1, Fin 2]]
   \<and> step sample_host [CoRun [''A'', ''B''], LoadLimit ''G'' (Fin 2) :: unit Rule] (Import [PhaseWindow ''T1'' [Fin 1, Fin 2]])
     = [PhaseWindow ''T1'' [Fin 1, Fin 2]]
   \<and> importRules sample_host [PhaseWindow ''T1'' [Fin 1, Fin 2]] [CoRun [''A'', ''B''], LoadLimit ''G'' (Fin 2) :: unit Rule]
     = importRules sample_host [PhaseWindow ''T1'' [Fin 1, Fin 2]] []"
proof -
  have good: "\<forall>r \<in> set [PhaseWindow ''T1'' [Fin 1, Fin 2] :: unit Rule].
                 isValid (validateRule sample_host r)"
    by (simp add: store_eval)
  show ?thesis
    by (rule import_replaces[OF good])
qed

text \<open>
  C10. \<open>updateRule\<close> throws exactly when the new rule fails \<open>validateRule\<close>. With a valid
  rule and an index outside \<open>[0, length)\<close> it returns and leaves the stored sequence as it
  was.
\<close>

theorem update_out_of_range_noop:
  "((\<exists>e. updateRule h index r S = Inl e) \<longleftrightarrow> \<not> isValid (validateRule h r))
   \<and> (isValid (validateRule h r) \<and> \<not> in_range index (length S) \<longrightarrow>
        updateRule h index r S = Inr S \<and> step h S (Update index r) = S)"
proof -
  have "\<forall>(i, r) \<in> set (enumerate 0 S). \<not> (Fin (real i) = index)" if "\<not> in_range index (length S)"
    using that by (cases index) (auto simp: in_set_enumerate_eq)
  then show ?thesis
    by (auto simp: updateRule_def Let_def step_def update_unmatched)
qed

theorem update_out_of_range_noop_witness:
  "updateRule sample_host (Fin 1) (LoadLimit ''G'' (Fin 2)) [CoRun [''A'', ''B''] :: unit Rule]
     = Inr [CoRun [''A'', ''B'']]
   \<and> step sample_host [CoRun [''A'', ''B''] :: unit Rule] (Update (Fin 1) (LoadLimit ''G'' (Fin 2)))
     = [CoRun [''A'', ''B'']]
   \<and> updateRule sample_host (Fin (- 1)) (LoadLimit ''G'' (Fin 2)) [CoRun [''A'', ''B''] :: unit Rule]
     = Inr [CoRun [''A'', ''B'']]
   \<and> (\<exists>e. updateRule sample_host (Fin 0) (LoadLimit '' '' (Fin 2)) [CoRun [''A'', ''B''] :: unit Rule] = Inl e)"
proof -
  have v: "isValid (validateRule sample_host (LoadLimit ''G'' (Fin 2) :: unit Rule))"
    by (simp add: store_eval)
  have nv: "\<not> isValid (validateRule sample_host (LoadLimit '' '' (Fin 2) :: unit Rule))"
    by (simp add: store_eval)
  have o1: "\<not> in_range (Fin 1) (length [CoRun [''A'', ''B''] :: unit Rule])" by simp
  have o2: "\<not> in_range (Fin (- 1)) (length [CoRun [''A'', ''B''] :: unit Rule])" by simp
  from update_out_of_range_noop[of sample_host "Fin 1" "LoadLimit ''G'' (Fin 2)" "[CoRun [''A'', ''B''] :: unit Rule]"] v o1
  have a: "updateRule sample_host (Fin 1) (LoadLimit ''G'' (Fin 2)) [CoRun [''A'', ''B''] :: unit Rule]
     = Inr [CoRun [''A'', ''B'']]
   \<and> step sample_host [CoRun [''A'', ''B''] :: unit Rule] (Update (Fin 1) (LoadLimit ''G'' (Fin 2)))
     = [CoRun [''A'', ''B'']]" by blast
  from update_out_of_range_noop[of sample_host "Fin (- 1)" "LoadLimit ''G'' (Fin 2)" "[CoRun [''A'', ''B''] :: unit Rule]"] v o2
  have b: "updateRule sample_host (Fin (- 1)) (LoadLimit ''G'' (Fin 2)) [CoRun [''A'', ''B''] :: unit Rule]
     = Inr [CoRun [''A'', ''B'']]" by blast
  from update_out_of_range_noop[of sample_host "Fin 0" "LoadLimit '' '' (Fin 2)" "[CoRun [''A'', ''B''] :: unit Rule]"] nv
  have c: "\<exists>e. updateRule sample_host (Fin 0) (LoadLimit '' '' (Fin 2)) [CoRun [''A'', ''B''] :: unit Rule] = Inl e"
    by blast
  from a b c show ?thesis by blast
qed

text \<open>
  C7. When every stored rule passes \<open>validateRule\<close>, importing the \<open>rules\<close> field of
  \<open>exportRules()\<close> into the cleared store returns, and the stored sequence is the original
  one.
\<close>

theorem export_import_roundtrip:
  "\<forall>r \<in> set S. isValid (validateRule h r) \<Longrightarrow>
     importRules h (rules (exportRules now S)) (clearRules S) = Inr S
     \<and> step h (clearRules S) (Import (rules (exportRules now S))) = S"
  by (auto simp: importRules_def Let_def exportRules_def step_def filter_empty_conv)

theorem export_import_roundtrip_witness:
  "importRules sample_host
     (rules (exportRules ''2025-01-01T00:00:00.000Z''
        [CoRun [''T1'', ''T2''], PatternMatch ''^T[0-9]+$'' ''t'' (), CoRun [''A'', ''B'']]))
     (clearRules [CoRun [''T1'', ''T2''], PatternMatch ''^T[0-9]+$'' ''t'' (), CoRun [''A'', ''B'']])
   = Inr [CoRun [''T1'', ''T2''], PatternMatch ''^T[0-9]+$'' ''t'' (), CoRun [''A'', ''B'']]
   \<and> step sample_host
     (clearRules [CoRun [''T1'', ''T2''], PatternMatch ''^T[0-9]+$'' ''t'' (), CoRun [''A'', ''B'']])
     (Import (rules (exportRules ''2025-01-01T00:00:00.000Z''
        [CoRun [''T1'', ''T2''], PatternMatch ''^T[0-9]+$'' ''t'' (), CoRun [''A'', ''B'']])))
   = [CoRun [''T1'', ''T2''], PatternMatch ''^T[0-9]+$'' ''t'' (), CoRun [''A'', ''B'']]"
proof -
  have good: "\<forall>r \<in> set [CoRun [''T1'', ''T2''], PatternMatch ''^T[0-9]+$'' ''t'' (), CoRun [''A'', ''B'']].
                 isValid (validateRule sample_host r)"
    by (simp add: store_eval)
  show ?thesis by (rule export_import_roundtrip[OF good])
qed

lemma export_metadata_example:
  "metadata (exportRules ''2025-01-01T00:00:00.000Z''
        [CoRun [''T1'', ''T2''], PatternMatch ''^T[0-9]+$'' ''t'' (), CoRun [''A'', ''B'']])
   = \<lparr>generatedAt = ''2025-01-01T00:00:00.000Z'', totalRules = 3,
      ruleTypes = [''coRun'', ''patternMatch'']\<rparr>"
  by (simp add: exportRules_def)

text \<open>
  C4. The specification has \<open>addRule\<close> throw exactly when the rule violates an invariant
  of its variant. A phase window whose only phase is NaN violates "every phase is at least 1"
  (\<open>violated\<close> lists the message), yet \<open>phase < 1\<close> is false for NaN and \<open>addRule\<close>
  appends the rule. The sibling checks \<open>!n || n < 1\<close> of the other variants do reject NaN.
  Lemma \<open>addRule_table\<close> above is the claim for every other rule.
\<close>

theorem add_accepts_nan_phase:
  "addRule sample_host (PhaseWindow ''T1'' [NaN]) ([] :: unit Rule list) = Inr [PhaseWindow ''T1'' [NaN]]
   \<and> violated sample_host (PhaseWindow ''T1'' [NaN] :: unit Rule) = [''All phases must be positive numbers'']"
  by (simp add: store_eval blank_def num_ge_def)

lemma add_examples:
  "addRule sample_host (CoRun [''T1'']) ([] :: unit Rule list)
     = Inl (Error ''Invalid rule: Co-run rule must have at least 2 tasks'')"
  "addRule sample_host (CoRun [''T1'', ''T2'']) [LoadLimit ''G'' (Fin 2) :: unit Rule]
     = Inr [LoadLimit ''G'' (Fin 2), CoRun [''T1'', ''T2'']]"
  "addRule sample_host (PatternMatch ''(unclosed'' ''t'' ()) []
     = Inl (Error ''Invalid rule: Invalid regex pattern'')"
  "addRule sample_host (PhaseWindow '' '' []) ([] :: unit Rule list)
     = Inl (Error ''Invalid rule: Phase window rule must have a task, Phase window rule must have at least one allowed phase'')"
  by (simp_all add: store_eval)


text \<open>The pipelines on the sample rows.\<close>

lemmas row_eval = validateRequiredColumns_def has_col_def get_col_def validateDuplicateIDs_def
  validateRange_def validateJSON_def validateGroupTags_def validateReferences_def
  validateNumericList_def validateWorkerLoad_def validateSkillCoverage_def slots_of_def
  or_else_def sample_host_def sample_strToNum_def isNaN_def json_text_def indexOf_def
  lastIndexOf_def substring_def falsy_str_def falsy_num_def trim_def is_ws_def is_delim_def Let_def

lemma client_checks_example:
  "client_checks sample_host [sample_client] [sample_task] =
     [[], [],
      [\<lparr>row = 1, column = ''PriorityLevel'',
         message = ''Value out of range (1-5) in PriorityLevel'', type = error\<rparr>],
      [], [],
      [\<lparr>row = 1, column = ''RequestedTaskIDs'',
         message = ''Unknown reference: T9'', type = error\<rparr>]]"
  by (simp add: client_checks_def sample_client_def sample_task_def row_eval)

lemma worker_checks_example:
  "worker_checks sample_host [sample_worker] =
     [[], [], [],
      [\<lparr>row = 1, column = ''AvailableSlots'',
         message = ''Worker overloaded: AvailableSlots < MaxLoadPerPhase'', type = error\<rparr>],
      []]"
  by (simp add: worker_checks_def sample_worker_def row_eval)

lemma task_checks_example:
  "task_checks sample_host [sample_task] [sample_worker] =
     [[], [], [],
      [\<lparr>row = 1, column = ''RequiredSkills'',
         message = ''Skill not covered by any worker: z'', type = error\<rparr>]]"
  by (simp add: task_checks_def sample_task_def sample_worker_def row_eval)


text \<open>
  C3. When one of the three arrays is absent or empty, \<open>validateAll\<close> returns the result
  with no errors and an empty summary for all three datasets, computed from no validator.
  When all three are non-empty, each dataset's errors are those of its fixed pipeline of
  validators, and its summary counts them.
\<close>

theorem validateAll_gate:
  "((cl = None \<or> cl = Some [] \<or> wk = None \<or> wk = Some [] \<or> tk = None \<or> tk = Some []) \<longrightarrow>
      validateAll h cl wk tk =
        \<lparr>clients = \<lparr>errors = [], summary = Map.empty\<rparr>,
         workers = \<lparr>errors = [], summary = Map.empty\<rparr>,
         tasks = \<lparr>errors = [], summary = Map.empty\<rparr>\<rparr>)
   \<and> (cs \<noteq> [] \<and> ws \<noteq> [] \<and> ts \<noteq> [] \<longrightarrow>
      validateAll h (Some cs) (Some ws) (Some ts) =
        \<lparr>clients = \<lparr>errors = concat (client_checks h cs ts),
                     summary = summarize (concat (client_checks h cs ts))\<rparr>,
         workers = \<lparr>errors = concat (worker_checks h ws),
                     summary = summarize (concat (worker_checks h ws))\<rparr>,
         tasks = \<lparr>errors = concat (task_checks h ts ws),
                   summary = summarize (concat (task_checks h ts ws))\<rparr>\<rparr>)"
  by (auto simp: validateAll_def no_length_def empty_results_def rows_of_def Let_def
        clientErrors_def workerErrors_def taskErrors_def)

theorem validateAll_gate_witness:
  "validateAll sample_host None (Some [sample_worker]) (Some [sample_task]) =
        \<lparr>clients = \<lparr>errors = [], summary = Map.empty\<rparr>,
         workers = \<lparr>errors = [], summary = Map.empty\<rparr>,
         tasks = \<lparr>errors = [], summary = Map.empty\<rparr>\<rparr>
   \<and> validateAll sample_host (Some [sample_client]) (Some [sample_worker]) (Some []) =
        \<lparr>clients = \<lparr>errors = [], summary = Map.empty\<rparr>,
         workers = \<lparr>errors = [], summary = Map.empty\<rparr>,
         tasks = \<lparr>errors = [], summary = Map.empty\<rparr>\<rparr>
   \<and> validateAll sample_host (Some [sample_client]) (Some [sample_worker]) (Some [sample_task]) =
        \<lparr>clients = \<lparr>errors =
           [\<lparr>row = 1, column = ''PriorityLevel'',
              message = ''Value out of range (1-5) in PriorityLevel'', type = error\<rparr>,
            \<lparr>row = 1, column = ''RequestedTaskIDs'',
              message = ''Unknown reference: T9'', type = error\<rparr>],
           summary = [error \<mapsto> 2]\<rparr>,
         workers = \<lparr>errors =
           [\<lparr>row = 1, column = ''AvailableSlots'',
              message = ''Worker overloaded: AvailableSlots < MaxLoadPerPhase'', type = error\<rparr>],
           summary = [error \<mapsto> 1]\<rparr>,
         tasks = \<lparr>errors =
           [\<lparr>row = 1, column = ''RequiredSkills'',
              message = ''Skill not covered by any worker: z'', type = error\<rparr>],
           summary = [error \<mapsto> 1]\<rparr>\<rparr>"
proof -
  have a: "validateAll sample_host None (Some [sample_worker]) (Some [sample_task]) =
        \<lparr>clients = \<lparr>errors = [], summary = Map.empty\<rparr>,
         workers = \<lparr>errors = [], summary = Map.empty\<rparr>,
         tasks = \<lparr>errors = [], summary = Map.empty\<rparr>\<rparr>"
    using validateAll_gate[of None "Some [sample_worker]" "Some [sample_task]" sample_host]
    by simp
  have b: "validateAll sample_host (Some [sample_client]) (Some [sample_worker]) (Some []) =
        \<lparr>clients = \<lparr>errors = [], summary = Map.empty\<rparr>,
         workers = \<lparr>errors = [], summary = Map.empty\<rparr>,
         tasks = \<lparr>errors = [], summary = Map.empty\<rparr>\<rparr>"
    using validateAll_gate[of "Some [sample_client]" "Some [sample_worker]" "Some []" sample_host]
    by simp
  have c: "validateAll sample_host (Some [sample_client]) (Some [sample_worker]) (Some [sample_task]) =
        \<lparr>clients = \<lparr>errors = concat (client_checks sample_host [sample_client] [sample_task]),
                     summary = summarize (concat (client_checks sample_host [sample_client] [sample_task]))\<rparr>,
         workers = \<lparr>errors = concat (worker_checks sample_host [sample_worker]),
                     summary = summarize (concat (worker_checks sample_host [sample_worker]))\<rparr>,
         tasks = \<lparr>errors = concat (task_checks sample_host [sample_task] [sample_worker]),
                   summary = summarize (concat (task_checks sample_host [sample_task] [sample_worker]))\<rparr>\<rparr>"
    using validateAll_gate[of _ _ _ sample_host "[sample_client]" "[sample_worker]" "[sample_task]"]
    by simp
  show ?thesis
    unfolding a b c client_checks_example worker_checks_example task_checks_example
    by (simp add: summarize_def count_type_def numeral_2_eq_2)
qed


text \<open>
  C5, as stated, fails: the specification has \<open>validateJSON\<close> report a later row with
  unparseable JSON although the first row lacks the column. The guard \<open>!(col in rows[0])\<close> looks at the
  first row only, and the result is empty.
\<close>

theorem validateJSON_skipped_on_first_row_counterexample:
  "\<not> has_col ''AttributesJSON'' no_json_row
   \<and> has_col ''AttributesJSON'' bad_json_row
   \<and> truthy (get_col bad_json_row ''AttributesJSON'')
   \<and> \<not> jsonParses sample_host (json_text (toString sample_host (get_col bad_json_row ''AttributesJSON'')))
   \<and> validateJSON sample_host [no_json_row, bad_json_row] ''AttributesJSON'' = []"
  by (simp add: no_json_row_def bad_json_row_def row_eval)

text \<open>
  C5, amended. \<open>validateJSON\<close> returns no errors when there is no row or the first row
  lacks the column, whatever the later rows hold. Otherwise it emits one error, at the
  1-based index of the row and in row order, for exactly the rows whose value in the
  column is truthy and whose text, cut to the span from the first \<open>{\<close> to the last
  \<open>}\<close> when it contains both, does not parse.
\<close>

theorem validateJSON_first_row_decides:
  "((rows = [] \<or> \<not> has_col col (hd rows)) \<longrightarrow> validateJSON h rows col = [])
   \<and> (rows \<noteq> [] \<and> has_col col (hd rows) \<longrightarrow>
        validateJSON h rows col =
          map (\<lambda>i. \<lparr>row = i + 1, column = col, message = ''Malformed JSON in '' @ col, type = error\<rparr>)
            (filter (\<lambda>i. truthy (get_col (rows ! i) col)
                         \<and> \<not> jsonParses h (json_text (toString h (get_col (rows ! i) col))))
               [0..<length rows]))"
proof -
  have "forEach (\<lambda>i rw.
                 if truthy (get_col rw col) then
                   (if jsonParses h (json_text (toString h (get_col rw col))) then []
                    else [\<lparr>row = i + 1, column = col,
                           message = ''Malformed JSON in '' @ col, type = error\<rparr>])
                 else []) 0 rows
      = forEach (\<lambda>i rw. if truthy (get_col rw col)
                            \<and> \<not> jsonParses h (json_text (toString h (get_col rw col)))
                 then [\<lparr>row = i + 1, column = col,
                           message = ''Malformed JSON in '' @ col, type = error\<rparr>] else []) 0 rows"
    by (rule arg_cong[where f="\<lambda>b. forEach b 0 rows"]) (auto simp: fun_eq_iff)
  also have "\<dots> = map (\<lambda>i. \<lparr>row = i + 1, column = col, message = ''Malformed JSON in '' @ col, type = error\<rparr>)
            (filter (\<lambda>i. truthy (get_col (rows ! i) col)
                         \<and> \<not> jsonParses h (json_text (toString h (get_col (rows ! i) col))))
               [0..<length rows])"
    by (rule forEach_single)
  finally show ?thesis
    by (cases rows) (simp_all add: validateJSON_def)
qed

theorem validateJSON_first_row_decides_witness:
  "validateJSON sample_host [no_json_row, bad_json_row] ''AttributesJSON'' = []
   \<and> validateJSON sample_host [good_json_row, bad_json_row] ''AttributesJSON'' =
       [\<lparr>row = 2, column = ''AttributesJSON'',
          message = ''Malformed JSON in AttributesJSON'', type = error\<rparr>]"
proof -
  have n: "\<not> has_col ''AttributesJSON'' (hd [no_json_row, bad_json_row])"
    by (simp add: no_json_row_def has_col_def)
  have g: "[good_json_row, bad_json_row] \<noteq> [] \<and> has_col ''AttributesJSON'' (hd [good_json_row, bad_json_row])"
    by (simp add: good_json_row_def has_col_def)
  have a: "validateJSON sample_host [no_json_row, bad_json_row] ''AttributesJSON'' = []"
    using validateJSON_first_row_decides[of "[no_json_row, bad_json_row]" "''AttributesJSON''" sample_host] n
    by blast
  have b: "validateJSON sample_host [good_json_row, bad_json_row] ''AttributesJSON'' =
          map (\<lambda>i. \<lparr>row = i + 1, column = ''AttributesJSON'',
                     message = ''Malformed JSON in '' @ ''AttributesJSON'', type = error\<rparr>)
            (filter (\<lambda>i. truthy (get_col ([good_json_row, bad_json_row] ! i) ''AttributesJSON'')
                         \<and> \<not> jsonParses sample_host (json_text (toString sample_host
                               (get_col ([good_json_row, bad_json_row] ! i) ''AttributesJSON''))))
               [0..<length [good_json_row, bad_json_row]])"
    using validateJSON_first_row_decides[of "[good_json_row, bad_json_row]" "''AttributesJSON''" sample_host] g
    by blast
  have u: "[0..<length [good_json_row, bad_json_row]] = [0, 1]"
    by (simp add: upt_rec)
  have c: "validateJSON sample_host [good_json_row, bad_json_row] ''AttributesJSON'' =
       [\<lparr>row = 2, column = ''AttributesJSON'',
          message = ''Malformed JSON in AttributesJSON'', type = error\<rparr>]"
    unfolding b u by (simp add: good_json_row_def bad_json_row_def row_eval)
  from a c show ?thesis by blast
qed

text \<open>
  C6. \<open>validateWorkerLoad\<close> emits one error for exactly the rows with a load violation, in
  row order: a row whose \<open>MaxLoadPerPhase\<close> converts to NaN never gets one, whatever its
  slots, and a row with a numeric \<open>MaxLoadPerPhase\<close> gets one exactly when the number of its
  non-empty slot tokens is strictly less than that number.
\<close>

theorem validateWorkerLoad_nan_passes:
  "validateWorkerLoad h rows =
     map (\<lambda>i. \<lparr>row = i + 1, column = ''AvailableSlots'',
               message = ''Worker overloaded: AvailableSlots < MaxLoadPerPhase'', type = error\<rparr>)
       (filter (\<lambda>i. load_violation h (rows ! i)) [0..<length rows])
   \<and> (\<forall>i < length rows. toNumber h (get_col (rows ! i) ''MaxLoadPerPhase'') = NaN \<longrightarrow>
         (\<forall>e \<in> set (validateWorkerLoad h rows). row e \<noteq> i + 1))"
proof -
  have lv: "num_lt (Fin (real (length (slots_of h rw)))) (toNumber h (get_col rw ''MaxLoadPerPhase''))
            = load_violation h rw" for rw
    by (cases "toNumber h (get_col rw ''MaxLoadPerPhase'')") (simp_all add: load_violation_def)
  have eq: "validateWorkerLoad h rows =
     map (\<lambda>i. \<lparr>row = i + 1, column = ''AvailableSlots'',
               message = ''Worker overloaded: AvailableSlots < MaxLoadPerPhase'', type = error\<rparr>)
       (filter (\<lambda>i. load_violation h (rows ! i)) [0..<length rows])"
    unfolding validateWorkerLoad_def Let_def lv by (rule forEach_single)
  have "\<forall>i < length rows. toNumber h (get_col (rows ! i) ''MaxLoadPerPhase'') = NaN \<longrightarrow>
         (\<forall>e \<in> set (validateWorkerLoad h rows). row e \<noteq> i + 1)"
    unfolding eq by (auto simp: load_violation_def)
  with eq show ?thesis by blast
qed

theorem validateWorkerLoad_nan_passes_witness:
  "toNumber sample_host (get_col nan_load_worker ''MaxLoadPerPhase'') = NaN
   \<and> length (slots_of sample_host nan_load_worker) = 2
   \<and> toNumber sample_host (get_col sample_worker ''MaxLoadPerPhase'') = Fin 3
   \<and> length (slots_of sample_host sample_worker) = 2
   \<and> validateWorkerLoad sample_host [nan_load_worker, sample_worker] =
       [\<lparr>row = 2, column = ''AvailableSlots'',
          message = ''Worker overloaded: AvailableSlots < MaxLoadPerPhase'', type = error\<rparr>]"
proof -
  have u: "[0..<length [nan_load_worker, sample_worker]] = [0, 1]"
    by (simp add: upt_rec)
  have l0: "\<not> load_violation sample_host nan_load_worker"
    by (simp add: load_violation_def nan_load_worker_def row_eval)
  have l1: "load_violation sample_host sample_worker"
    by (simp add: load_violation_def sample_worker_def row_eval)
  have "validateWorkerLoad sample_host [nan_load_worker, sample_worker] =
     map (\<lambda>i. \<lparr>row = i + 1, column = ''AvailableSlots'',
               message = ''Worker overloaded: AvailableSlots < MaxLoadPerPhase'', type = error\<rparr>)
       (filter (\<lambda>i. load_violation sample_host ([nan_load_worker, sample_worker] ! i))
          [0..<length [nan_load_worker, sample_worker]])"
    using validateWorkerLoad_nan_passes[of sample_host "[nan_load_worker, sample_worker]"]
    by blast
  then have "validateWorkerLoad sample_host [nan_load_worker, sample_worker] =
       [\<lparr>row = 2, column = ''AvailableSlots'',
          message = ''Worker overloaded: AvailableSlots < MaxLoadPerPhase'', type = error\<rparr>]"
    unfolding u using l0 l1 by simp
  then show ?thesis
    by (simp add: nan_load_worker_def sample_worker_def row_eval)
qed



lemma client_checks_two_rows:
  "client_checks sample_host [sample_client, sample_client] [sample_task] =
     [[],
      [\<lparr>row = 2, column = ''ClientID'', message = ''Duplicate ID: C1'', type = error\<rparr>],
      [\<lparr>row = 1, column = ''PriorityLevel'',
         message = ''Value out of range (1-5) in PriorityLevel'', type = error\<rparr>,
       \<lparr>row = 2, column = ''PriorityLevel'',
         message = ''Value out of range (1-5) in PriorityLevel'', type = error\<rparr>],
      [], [],
      [\<lparr>row = 1, column = ''RequestedTaskIDs'',
         message = ''Unknown reference: T9'', type = error\<rparr>,
       \<lparr>row = 2, column = ''RequestedTaskIDs'',
         message = ''Unknown reference: T9'', type = error\<rparr>]]"
  by (simp add: client_checks_def sample_client_def sample_task_def row_eval)

text \<open>The contributions of each pipeline are in row order and tagged \<open>error\<close>.\<close>

lemma client_parts_sorted: "\<forall>part \<in> set (client_checks h cs ts). sorted (map row part)"
  by (simp add: client_checks_def required_rows duplicate_rows range_rows json_rows group_rows
        references_rows)

lemma worker_parts_sorted: "\<forall>part \<in> set (worker_checks h ws). sorted (map row part)"
  by (simp add: worker_checks_def required_rows duplicate_rows numeric_rows load_rows group_rows)

lemma task_parts_sorted: "\<forall>part \<in> set (task_checks h ts ws). sorted (map row part)"
  by (simp add: task_checks_def required_rows duplicate_rows range_rows skill_rows)

lemma client_parts_types: "\<forall>e \<in> set (concat (client_checks h cs ts)). type e = error"
  using required_types duplicate_types range_types json_types group_types references_types
  by (simp add: client_checks_def ball_Un)

lemma worker_parts_types: "\<forall>e \<in> set (concat (worker_checks h ws)). type e = error"
  using required_types duplicate_types numeric_types load_types group_types
  by (simp add: worker_checks_def ball_Un)

lemma task_parts_types: "\<forall>e \<in> set (concat (task_checks h ts ws)). type e = error"
  using required_types duplicate_types range_types skill_types
  by (simp add: task_checks_def ball_Un)

text \<open>
  C8. \<open>validateAll\<close> reads nothing but its arguments and the builtins, and changes no row:
  it is a function of them, so two calls on the same datasets give the same result. The
  order that result has: each dataset's errors are the contributions of its validators in
  the order of the pipeline, every contribution in row order, and each summary is the
  number of those errors (no entry when there are none).
\<close>

theorem validateAll_deterministic:
  "(\<forall>r1 r2. r1 = validateAll h cl wk tk \<and> r2 = validateAll h cl wk tk \<longrightarrow> r1 = r2)
   \<and> (cs \<noteq> [] \<and> ws \<noteq> [] \<and> ts \<noteq> [] \<longrightarrow>
       errors (clients (validateAll h (Some cs) (Some ws) (Some ts))) = concat (client_checks h cs ts)
     \<and> errors (workers (validateAll h (Some cs) (Some ws) (Some ts))) = concat (worker_checks h ws)
     \<and> errors (tasks (validateAll h (Some cs) (Some ws) (Some ts))) = concat (task_checks h ts ws)
     \<and> (\<forall>part \<in> set (client_checks h cs ts) \<union> set (worker_checks h ws) \<union> set (task_checks h ts ws).
           sorted (map row part))
     \<and> summary (clients (validateAll h (Some cs) (Some ws) (Some ts)))
         = (if concat (client_checks h cs ts) = [] then Map.empty
            else [error \<mapsto> length (concat (client_checks h cs ts))])
     \<and> summary (workers (validateAll h (Some cs) (Some ws) (Some ts)))
         = (if concat (worker_checks h ws) = [] then Map.empty
            else [error \<mapsto> length (concat (worker_checks h ws))])
     \<and> summary (tasks (validateAll h (Some cs) (Some ws) (Some ts)))
         = (if concat (task_checks h ts ws) = [] then Map.empty
            else [error \<mapsto> length (concat (task_checks h ts ws))]))"
proof -
  have sorted_parts:
    "\<forall>part \<in> set (client_checks h cs ts) \<union> set (worker_checks h ws) \<union> set (task_checks h ts ws).
        sorted (map row part)"
    using client_parts_sorted[of h cs ts] worker_parts_sorted[of h ws] task_parts_sorted[of h ts ws]
    by blast
  have sc: "summarize (concat (client_checks h cs ts))
         = (if concat (client_checks h cs ts) = [] then Map.empty
            else [error \<mapsto> length (concat (client_checks h cs ts))])"
    by (rule summarize_count[OF client_parts_types])
  have sw: "summarize (concat (worker_checks h ws))
         = (if concat (worker_checks h ws) = [] then Map.empty
            else [error \<mapsto> length (concat (worker_checks h ws))])"
    by (rule summarize_count[OF worker_parts_types])
  have st: "summarize (concat (task_checks h ts ws))
         = (if concat (task_checks h ts ws) = [] then Map.empty
            else [error \<mapsto> length (concat (task_checks h ts ws))])"
    by (rule summarize_count[OF task_parts_types])
  have run: "validateAll h (Some cs) (Some ws) (Some ts) =
        \<lparr>clients = \<lparr>errors = concat (client_checks h cs ts),
                     summary = summarize (concat (client_checks h cs ts))\<rparr>,
         workers = \<lparr>errors = concat (worker_checks h ws),
                     summary = summarize (concat (worker_checks h ws))\<rparr>,
         tasks = \<lparr>errors = concat (task_checks h ts ws),
                   summary = summarize (concat (task_checks h ts ws))\<rparr>\<rparr>"
    if "cs \<noteq> []" "ws \<noteq> []" "ts \<noteq> []"
    using that
    by (simp add: validateAll_def no_length_def rows_of_def Let_def
        clientErrors_def workerErrors_def taskErrors_def)
  show ?thesis
  proof (rule conjI)
    show "\<forall>r1 r2. r1 = validateAll h cl wk tk \<and> r2 = validateAll h cl wk tk \<longrightarrow> r1 = r2"
      by simp
  next
    show "cs \<noteq> [] \<and> ws \<noteq> [] \<and> ts \<noteq> [] \<longrightarrow>
       errors (clients (validateAll h (Some cs) (Some ws) (Some ts))) = concat (client_checks h cs ts)
     \<and> errors (workers (validateAll h (Some cs) (Some ws) (Some ts))) = concat (worker_checks h ws)
     \<and> errors (tasks (validateAll h (Some cs) (Some ws) (Some ts))) = concat (task_checks h ts ws)
     \<and> (\<forall>part \<in> set (client_checks h cs ts) \<union> set (worker_checks h ws) \<union> set (task_checks h ts ws).
           sorted (map row part))
     \<and> summary (clients (validateAll h (Some cs) (Some ws) (Some ts)))
         = (if concat (client_checks h cs ts) = [] then Map.empty
            else [error \<mapsto> length (concat (client_checks h cs ts))])
     \<and> summary (workers (validateAll h (Some cs) (Some ws) (Some ts)))
         = (if concat (worker_checks h ws) = [] then Map.empty
            else [error \<mapsto> length (concat (worker_checks h ws))])
     \<and> summary (tasks (validateAll h (Some cs) (Some ws) (Some ts)))
         = (if concat (task_checks h ts ws) = [] then Map.empty
            else [error \<mapsto> length (concat (task_checks h ts ws))])"
    proof
      assume "cs \<noteq> [] \<and> ws \<noteq> [] \<and> ts \<noteq> []"
      then have r: "validateAll h (Some cs) (Some ws) (Some ts) =
        \<lparr>clients = \<lparr>errors = concat (client_checks h cs ts),
                     summary = summarize (concat (client_checks h cs ts))\<rparr>,
         workers = \<lparr>errors = concat (worker_checks h ws),
                     summary = summarize (concat (worker_checks h ws))\<rparr>,
         tasks = \<lparr>errors = concat (task_checks h ts ws),
                   summary = summarize (concat (task_checks h ts ws))\<rparr>\<rparr>"
        using run by blast
      have e: "errors (clients (validateAll h (Some cs) (Some ws) (Some ts))) = concat (client_checks h cs ts)"
        "errors (workers (validateAll h (Some cs) (Some ws) (Some ts))) = concat (worker_checks h ws)"
        "errors (tasks (validateAll h (Some cs) (Some ws) (Some ts))) = concat (task_checks h ts ws)"
        unfolding r by simp_all
      have s: "summary (clients (validateAll h (Some cs) (Some ws) (Some ts)))
                 = summarize (concat (client_checks h cs ts))"
        "summary (workers (validateAll h (Some cs) (Some ws) (Some ts)))
                 = summarize (concat (worker_checks h ws))"
        "summary (tasks (validateAll h (Some cs) (Some ws) (Some ts)))
                 = summarize (concat (task_checks h ts ws))"
        unfolding r by simp_all
      from e s sc sw st sorted_parts
      show "errors (clients (validateAll h (Some cs) (Some ws) (Some ts))) = concat (client_checks h cs ts)
     \<and> errors (workers (validateAll h (Some cs) (Some ws) (Some ts))) = concat (worker_checks h ws)
     \<and> errors (tasks (validateAll h (Some cs) (Some ws) (Some ts))) = concat (task_checks h ts ws)
     \<and> (\<forall>part \<in> set (client_checks h cs ts) \<union> set (worker_checks h ws) \<union> set (task_checks h ts ws).
           sorted (map row part))
     \<and> summary (clients (validateAll h (Some cs) (Some ws) (Some ts)))
         = (if concat (client_checks h cs ts) = [] then Map.empty
            else [error \<mapsto> length (concat (client_checks h cs ts))])
     \<and> summary (workers (validateAll h (Some cs) (Some ws) (Some ts)))
         = (if concat (worker_checks h ws) = [] then Map.empty
            else [error \<mapsto> length (concat (worker_checks h ws))])
     \<and> summary (tasks (validateAll h (Some cs) (Some ws) (Some ts)))
         = (if concat (task_checks h ts ws) = [] then Map.empty
            else [error \<mapsto> length (concat (task_checks h ts ws))])"
        by (simp only: simp_thms)
    qed
  qed
qed


theorem validateAll_deterministic_witness:
  "errors (clients (validateAll sample_host (Some [sample_client, sample_client])
                      (Some [sample_worker]) (Some [sample_task]))) =
     [\<lparr>row = 2, column = ''ClientID'', message = ''Duplicate ID: C1'', type = error\<rparr>,
      \<lparr>row = 1, column = ''PriorityLevel'',
         message = ''Value out of range (1-5) in PriorityLevel'', type = error\<rparr>,
      \<lparr>row = 2, column = ''PriorityLevel'',
         message = ''Value out of range (1-5) in PriorityLevel'', type = error\<rparr>,
      \<lparr>row = 1, column = ''RequestedTaskIDs'',
         message = ''Unknown reference: T9'', type = error\<rparr>,
      \<lparr>row = 2, column = ''RequestedTaskIDs'',
         message = ''Unknown reference: T9'', type = error\<rparr>]
   \<and> summary (clients (validateAll sample_host (Some [sample_client, sample_client])
                      (Some [sample_worker]) (Some [sample_task]))) = [error \<mapsto> 5]
   \<and> errors (workers (validateAll sample_host (Some [sample_client, sample_client])
                      (Some [sample_worker]) (Some [sample_task]))) =
     [\<lparr>row = 1, column = ''AvailableSlots'',
         message = ''Worker overloaded: AvailableSlots < MaxLoadPerPhase'', type = error\<rparr>]
   \<and> summary (workers (validateAll sample_host (Some [sample_client, sample_client])
                      (Some [sample_worker]) (Some [sample_task]))) = [error \<mapsto> 1]
   \<and> errors (tasks (validateAll sample_host (Some [sample_client, sample_client])
                      (Some [sample_worker]) (Some [sample_task]))) =
     [\<lparr>row = 1, column = ''RequiredSkills'',
         message = ''Skill not covered by any worker: z'', type = error\<rparr>]
   \<and> summary (tasks (validateAll sample_host (Some [sample_client, sample_client])
                      (Some [sample_worker]) (Some [sample_task]))) = [error \<mapsto> 1]"
proof -
  have ne: "[sample_client, sample_client] \<noteq> [] \<and> [sample_worker] \<noteq> [] \<and> [sample_task] \<noteq> []"
    by simp
  show ?thesis
    using validateAll_deterministic[of sample_host None None None
            "[sample_client, sample_client]" "[sample_worker]" "[sample_task]",
            THEN conjunct2, rule_format, OF ne]
    unfolding client_checks_two_rows worker_checks_example task_checks_example
    by (simp add: eval_nat_numeral)
qed


end
